theory Spec2Isabelle
  imports Main
begin

section \<open>Go strings as rune sequences\<close>

text \<open>
  The program is \<^verbatim>\<open>src/main.go\<close>, which holds two revisions of the same file: the
  earlier one (hyphen dialect: \<^verbatim>\<open>parsePattern\<close>, \<^verbatim>\<open>matchSyllablePatternWithChars\<close>, a
  two-argument \<^verbatim>\<open>matchWildcard\<close>, the lookup loop inside \<^verbatim>\<open>main\<close>) and the later one
  (four-argument \<^verbatim>\<open>matchWildcard\<close>, \<^verbatim>\<open>normalizeSpaces\<close>, the lookup loop inside \<^verbatim>\<open>ui\<close>).

  Every string operation of the program reads its argument rune by rune
  (\<^verbatim>\<open>[]rune(s)\<close>, \<^verbatim>\<open>range s\<close>, \<^verbatim>\<open>strings.Fields\<close>, \<^verbatim>\<open>strings.ContainsRune\<close>,
  \<^verbatim>\<open>utf8.RuneCountInString\<close>) or splits it at an ASCII byte, which never lies inside
  the encoding of another rune. A Go string is therefore modelled by the list of code
  points that \<^verbatim>\<open>[]rune(s)\<close> yields (an ill-formed byte reads as U+FFFD there, as it
  does in Go). The model stands for the code on well-formed UTF-8; on ill-formed
  strings it differs in one place, the concatenation in \<^verbatim>\<open>parsePattern\<close> (see there).
\<close>

type_synonym rune = nat

definition runes :: "string \<Rightarrow> rune list" where
  "runes s = map of_char s"

definition star :: rune where "star = 0x2A"
definition space :: rune where "space = 0x20"
definition hyphen :: rune where "hyphen = 0x2D"
definition plus_sign :: rune where "plus_sign = 0x2B"

text \<open>
  \<^verbatim>\<open>unicode.IsSpace\<close>: the Latin-1 spaces \<^verbatim>\<open>'\t' '\n' '\v' '\f' '\r' ' '\<close>, U+0085,
  U+00A0, and the code points of the property White_Space beyond Latin-1.
\<close>

definition unicode_IsSpace :: "rune \<Rightarrow> bool" where
  "unicode_IsSpace r =
     (r = 0x09 \<or> r = 0x0A \<or> r = 0x0B \<or> r = 0x0C \<or> r = 0x0D \<or> r = 0x20 \<or> r = 0x85 \<or>
      r = 0xA0 \<or> r = 0x1680 \<or> (0x2000 \<le> r \<and> r \<le> 0x200A) \<or> r = 0x2028 \<or> r = 0x2029 \<or>
      r = 0x202F \<or> r = 0x205F \<or> r = 0x3000)"

text \<open>\<^verbatim>\<open>strings.Split(s, sep)\<close> for a separator of one ASCII character.\<close>

fun strings_Split :: "rune list \<Rightarrow> rune \<Rightarrow> rune list list" where
  "strings_Split [] sep = [[]]"
| "strings_Split (c # cs) sep =
     (if c = sep then [] # strings_Split cs sep
      else (case strings_Split cs sep of [] \<Rightarrow> [[c]] | w # ws \<Rightarrow> (c # w) # ws))"

text \<open>
  \<^verbatim>\<open>strings.Fields(s)\<close>: the maximal runs of non-space runes, in order. \<open>cur\<close> is the
  field being read (empty between fields).
\<close>

fun fields_from :: "rune list \<Rightarrow> rune list \<Rightarrow> rune list list" where
  "fields_from cur [] = (if cur = [] then [] else [cur])"
| "fields_from cur (c # cs) =
     (if unicode_IsSpace c then (if cur = [] then fields_from [] cs else cur # fields_from [] cs)
      else fields_from (cur @ [c]) cs)"

definition strings_Fields :: "rune list \<Rightarrow> rune list list" where
  "strings_Fields s = fields_from [] s"

fun strings_Join :: "rune list list \<Rightarrow> rune list \<Rightarrow> rune list" where
  "strings_Join [] sep = []"
| "strings_Join [w] sep = w"
| "strings_Join (w # v # ws) sep = w @ sep @ strings_Join (v # ws) sep"

definition strings_ContainsRune :: "rune list \<Rightarrow> rune \<Rightarrow> bool" where
  "strings_ContainsRune s r = (r \<in> set s)"

definition utf8_RuneCountInString :: "rune list \<Rightarrow> int" where
  "utf8_RuneCountInString s = int (length s)"

text \<open>A slice index out of range is a run-time panic in Go; the model returns it as a value.\<close>

datatype panic = IndexOutOfRange

definition index :: "'a list \<Rightarrow> nat \<Rightarrow> panic + 'a" where
  "index xs i = (if i < length xs then Inr (xs ! i) else Inl IndexOutOfRange)"

section \<open>The wildcard matcher\<close>

text \<open>
  \<^verbatim>\<open>func normalizeSpaces(s string) string { return strings.Join(strings.Fields(s), " ") }\<close>
\<close>

definition normalizeSpaces :: "rune list \<Rightarrow> rune list" where
  "normalizeSpaces s = strings_Join (strings_Fields s) [space]"

text \<open>
  The inner loop of \<^verbatim>\<open>matchWildcard\<close>, \<^verbatim>\<open>for j := range pw\<close>, over the indices still to
  visit. \<open>Inl\<close> is a panic, \<open>Inr None\<close> is \<^verbatim>\<open>return false\<close>, \<open>Inr (Some acc)\<close> is the loop
  running to its end with \<^verbatim>\<open>allWildcardRunes = acc\<close>.
\<close>

fun cells_loop :: "rune list \<Rightarrow> rune list \<Rightarrow> nat list \<Rightarrow> rune list \<Rightarrow> panic + rune list option" where
  "cells_loop pw tw [] acc = Inr (Some acc)"
| "cells_loop pw tw (j # js) acc =
     (case index pw j of
        Inl e \<Rightarrow> Inl e
      | Inr p \<Rightarrow>
          if p = star then
            (case index tw j of
               Inl e \<Rightarrow> Inl e
             | Inr t \<Rightarrow> cells_loop pw tw js (acc @ [t]))
          else
            (case index tw j of
               Inl e \<Rightarrow> Inl e
             | Inr t \<Rightarrow> if p \<noteq> t then Inr None else cells_loop pw tw js acc))"

text \<open>The outer loop, \<^verbatim>\<open>for i := range pWords\<close>.\<close>

fun words_loop ::
  "rune list list \<Rightarrow> rune list list \<Rightarrow> nat list \<Rightarrow> rune list \<Rightarrow> panic + rune list option" where
  "words_loop pWords tWords [] acc = Inr (Some acc)"
| "words_loop pWords tWords (i # is) acc =
     (case index pWords i of
        Inl e \<Rightarrow> Inl e
      | Inr pw \<Rightarrow>
          (case index tWords i of
             Inl e \<Rightarrow> Inl e
           | Inr tw \<Rightarrow>
               if length pw \<noteq> length tw then Inr None
               else
                 (case cells_loop pw tw [0..<length pw] acc of
                    Inl e \<Rightarrow> Inl e
                  | Inr None \<Rightarrow> Inr None
                  | Inr (Some acc') \<Rightarrow> words_loop pWords tWords is acc')))"

text \<open>
  The two closing loops: \<^verbatim>\<open>for _, ch := range required\<close> returns false at the first
  rune that the wildcard text lacks, \<^verbatim>\<open>for _, ch := range excluded\<close> at the first one
  it has. Each function is True when its loop runs to the end.
\<close>

fun required_loop :: "rune list \<Rightarrow> rune list \<Rightarrow> bool" where
  "required_loop wildcardText [] = True"
| "required_loop wildcardText (ch # chs) =
     (if \<not> strings_ContainsRune wildcardText ch then False else required_loop wildcardText chs)"

fun excluded_loop :: "rune list \<Rightarrow> rune list \<Rightarrow> bool" where
  "excluded_loop wildcardText [] = True"
| "excluded_loop wildcardText (ch # chs) =
     (if strings_ContainsRune wildcardText ch then False else excluded_loop wildcardText chs)"

definition matchWildcard ::
  "rune list \<Rightarrow> rune list \<Rightarrow> rune list \<Rightarrow> rune list \<Rightarrow> panic + bool" where
  "matchWildcard pattern text required excluded =
     (let pattern' = normalizeSpaces pattern;
          pWords = strings_Split pattern' space;
          tWords = strings_Split text space
      in if length pWords \<noteq> length tWords then Inr False
         else
           (case words_loop pWords tWords [0..<length pWords] [] of
              Inl e \<Rightarrow> Inl e
            | Inr None \<Rightarrow> Inr False
            | Inr (Some allWildcardRunes) \<Rightarrow>
                if \<not> required_loop allWildcardRunes required then Inr False
                else if \<not> excluded_loop allWildcardRunes excluded then Inr False
                else Inr True))"

subsection \<open>The matcher as the specification words it\<close>

text \<open>
  A template syllable fits a word syllable when both have the same number of runes and
  every literal cell equals the word's rune at its position; the runes under the
  wildcard cells are the captured ones.
\<close>

definition syllable_fits :: "rune list \<Rightarrow> rune list \<Rightarrow> bool" where
  "syllable_fits pw tw =
     (length pw = length tw \<and> list_all (\<lambda>(p, t). p = star \<or> p = t) (zip pw tw))"

definition captured_cells :: "rune list \<Rightarrow> rune list \<Rightarrow> rune list" where
  "captured_cells pw tw = map snd (filter (\<lambda>(p, t). p = star) (zip pw tw))"

definition template_syllables :: "rune list \<Rightarrow> rune list list" where
  "template_syllables pattern = strings_Split (normalizeSpaces pattern) space"

definition word_syllables :: "rune list \<Rightarrow> rune list list" where
  "word_syllables text = strings_Split text space"

definition template_fits :: "rune list \<Rightarrow> rune list \<Rightarrow> bool" where
  "template_fits pattern text =
     (length (template_syllables pattern) = length (word_syllables text) \<and>
      list_all (\<lambda>(pw, tw). syllable_fits pw tw)
        (zip (template_syllables pattern) (word_syllables text)))"

definition wildcard_chars :: "rune list \<Rightarrow> rune list \<Rightarrow> rune list" where
  "wildcard_chars pattern text =
     concat (map (\<lambda>(pw, tw). captured_cells pw tw)
       (zip (template_syllables pattern) (word_syllables text)))"

section \<open>The hyphen dialect of the earlier revision\<close>

text \<open>
  \<^verbatim>\<open>strconv.Atoi\<close> where \<^verbatim>\<open>int\<close> has 64 bits: an optional sign, then one or more
  decimal digits, and a value that fits \<^verbatim>\<open>int\<close>; anything else is an error.
\<close>

datatype NumError = ErrSyntax | ErrRange

definition is_digit :: "rune \<Rightarrow> bool" where
  "is_digit c = (0x30 \<le> c \<and> c \<le> 0x39)"

fun digits_value :: "int \<Rightarrow> rune list \<Rightarrow> int" where
  "digits_value n [] = n"
| "digits_value n (ch # chs) = digits_value (n * 10 + (int ch - 0x30)) chs"

definition strconv_Atoi :: "rune list \<Rightarrow> NumError + int" where
  "strconv_Atoi s =
     (case s of
        [] \<Rightarrow> Inl ErrSyntax
      | c # cs \<Rightarrow>
          (let neg = (c = hyphen);
               ds = (if c = hyphen \<or> c = plus_sign then cs else s)
           in if ds = [] then Inl ErrSyntax
              else if \<not> list_all is_digit ds then Inl ErrSyntax
              else
                (let n = digits_value 0 ds
                 in if neg then (if 2 ^ 63 < n then Inl ErrRange else Inr (- n))
                    else (if 2 ^ 63 \<le> n then Inl ErrRange else Inr n))))"

record SyllableCond =
  Length :: int

text \<open>
  \<^verbatim>\<open>parsePattern\<close>: the loop \<^verbatim>\<open>for _, p := range parts\<close> with its two accumulators.
  The Go function has no error result and no statement that can panic, so the model
  returns the pair itself.

  \<^verbatim>\<open>mustChars += p\<close> concatenates bytes, the model concatenates runes. The two agree
  on a well-formed query. In an ill-formed one a hyphen can stand between the bytes of
  one encoding (C3 2D A9 2D 31): there the code's must-contain string holds the rune
  U+00E9, the model's holds U+FFFD twice. The length constraints are the same in both.
\<close>

fun parse_loop ::
  "rune list list \<Rightarrow> SyllableCond list \<Rightarrow> rune list \<Rightarrow> SyllableCond list \<times> rune list" where
  "parse_loop [] conds mustChars = (conds, mustChars)"
| "parse_loop (p # ps) conds mustChars =
     (case strconv_Atoi p of
        Inr n \<Rightarrow> parse_loop ps (conds @ [\<lparr>Length = n\<rparr>]) mustChars
      | Inl err \<Rightarrow> parse_loop ps conds (mustChars @ p))"

definition parsePattern :: "rune list \<Rightarrow> SyllableCond list \<times> rune list" where
  "parsePattern query = parse_loop (strings_Split query hyphen) [] []"

text \<open>
  \<^verbatim>\<open>matchSyllablePatternWithChars\<close>. The first loop, \<^verbatim>\<open>for i, part := range parts\<close>,
  reads \<^verbatim>\<open>conds[i]\<close>; \<open>Inr False\<close> is its \<^verbatim>\<open>return false\<close>, \<open>Inr True\<close> the loop
  running to its end. The second loop is \<^verbatim>\<open>for _, ch := range mustChars\<close>.
\<close>

fun syllables_loop :: "(nat \<times> rune list) list \<Rightarrow> SyllableCond list \<Rightarrow> panic + bool" where
  "syllables_loop [] conds = Inr True"
| "syllables_loop ((i, part) # rest) conds =
     (case index conds i of
        Inl e \<Rightarrow> Inl e
      | Inr cond \<Rightarrow>
          if utf8_RuneCountInString part \<noteq> Length cond then Inr False
          else syllables_loop rest conds)"

fun mustChars_loop :: "rune list \<Rightarrow> rune list \<Rightarrow> bool" where
  "mustChars_loop word [] = True"
| "mustChars_loop word (ch # chs) =
     (if \<not> strings_ContainsRune word ch then False else mustChars_loop word chs)"

definition matchSyllablePatternWithChars ::
  "rune list \<Rightarrow> SyllableCond list \<Rightarrow> rune list \<Rightarrow> panic + bool" where
  "matchSyllablePatternWithChars word conds mustChars =
     (let parts = strings_Fields word
      in if length parts \<noteq> length conds then Inr False
         else
           (case syllables_loop (zip [0..<length parts] parts) conds of
              Inl e \<Rightarrow> Inl e
            | Inr False \<Rightarrow> Inr False
            | Inr True \<Rightarrow>
                if \<not> mustChars_loop word mustChars then Inr False else Inr True))"

text \<open>
  The two-argument \<^verbatim>\<open>matchWildcard\<close> of the earlier revision (the later revision
  reuses the name): one loop over the runes of the whole pattern.
\<close>

fun runes_loop :: "rune list \<Rightarrow> rune list \<Rightarrow> nat list \<Rightarrow> panic + bool" where
  "runes_loop pRunes tRunes [] = Inr True"
| "runes_loop pRunes tRunes (i # is) =
     (case index pRunes i of
        Inl e \<Rightarrow> Inl e
      | Inr p \<Rightarrow>
          if p = star then runes_loop pRunes tRunes is
          else
            (case index tRunes i of
               Inl e \<Rightarrow> Inl e
             | Inr t \<Rightarrow> if p \<noteq> t then Inr False else runes_loop pRunes tRunes is))"

definition matchWildcard_v1 :: "rune list \<Rightarrow> rune list \<Rightarrow> panic + bool" where
  "matchWildcard_v1 pattern text =
     (if length pattern \<noteq> length text then Inr False
      else runes_loop pattern text [0..<length pattern])"

section \<open>The normalizer\<close>

text \<open>
  \<^verbatim>\<open>removeDiacritics\<close> calls \<^verbatim>\<open>norm.NFD.String\<close> (golang.org/x/text) and
  \<^verbatim>\<open>unicode.Is(unicode.Mn, r)\<close>, and its callers \<^verbatim>\<open>strings.ToLower\<close>. Their tables
  are the Unicode Character Database, which is no part of the repository: the model
  takes them as a parameter.
  \<^item> \<open>decomposition r\<close> is the full canonical decomposition of \<open>r\<close> (\<open>[r]\<close> when it has none);
  \<^item> \<open>combining_class r\<close> is its canonical combining class;
  \<^item> \<open>is_Mn r\<close> says that its general category is Mn (nonspacing mark);
  \<^item> \<open>to_lower r\<close> is \<^verbatim>\<open>unicode.ToLower(r)\<close>.
\<close>

record unicode_data =
  decomposition :: "rune \<Rightarrow> rune list"
  combining_class :: "rune \<Rightarrow> nat"
  is_Mn :: "rune \<Rightarrow> bool"
  to_lower :: "rune \<Rightarrow> rune"

text \<open>
  Normalization form D as Unicode Standard Annex 15 defines it: every rune is replaced
  by its full canonical decomposition, then the canonical ordering moves each rune of
  non-zero combining class in front of the runes of greater class that stand directly
  before it. \<open>insert_mark\<close> works on the reversed output.

  The x/text implementation also breaks a run of more than thirty non-starters by
  inserting U+034F, and orders each piece on its own. The model leaves that out: it
  stands for the code on the strings without such a run, and differs from it for
  instance on U+1D16D followed by thirty-one U+1D165. (U+034F is of category Mn, so
  \<^verbatim>\<open>removeDiacritics\<close> drops it again; only the order of marks that are not of
  category Mn can differ.)
\<close>

fun insert_mark :: "(rune \<Rightarrow> nat) \<Rightarrow> rune \<Rightarrow> rune list \<Rightarrow> rune list" where
  "insert_mark ccc c [] = [c]"
| "insert_mark ccc c (x # xs) =
     (if ccc c \<noteq> 0 \<and> ccc c < ccc x then x # insert_mark ccc c xs else c # x # xs)"

definition canonical_order :: "(rune \<Rightarrow> nat) \<Rightarrow> rune list \<Rightarrow> rune list" where
  "canonical_order ccc s = rev (foldl (\<lambda>buf c. insert_mark ccc c buf) [] s)"

definition norm_NFD :: "unicode_data \<Rightarrow> rune list \<Rightarrow> rune list" where
  "norm_NFD ud s = canonical_order (combining_class ud) (concat (map (decomposition ud) s))"

definition d_stroke :: rune where "d_stroke = 0x111"
definition D_stroke :: rune where "D_stroke = 0x110"

text \<open>
  The loop \<^verbatim>\<open>for _, r := range t\<close> of \<^verbatim>\<open>removeDiacritics\<close>; \<open>b\<close> is the string
  builder.
\<close>

fun write_loop :: "unicode_data \<Rightarrow> rune list \<Rightarrow> rune list \<Rightarrow> rune list" where
  "write_loop ud [] b = b"
| "write_loop ud (r # rs) b =
     (if is_Mn ud r then write_loop ud rs b
      else if r = d_stroke then write_loop ud rs (b @ [0x64])
      else if r = D_stroke then write_loop ud rs (b @ [0x44])
      else write_loop ud rs (b @ [r]))"

definition removeDiacritics :: "unicode_data \<Rightarrow> rune list \<Rightarrow> rune list" where
  "removeDiacritics ud str = write_loop ud (norm_NFD ud str) []"

definition strings_ToLower :: "unicode_data \<Rightarrow> rune list \<Rightarrow> rune list" where
  "strings_ToLower ud s = map (to_lower ud) s"

subsection \<open>The Unicode data of the Vietnamese alphabet\<close>

text \<open>
  The entries of the Unicode Character Database for the letters of the Vietnamese
  alphabet (U+0110 and U+0111 among them, which have no decomposition), their eight
  combining marks, U+034F, and the musical marks U+1D165 and U+1D16D (both of category
  Mc, of combining classes 216 and 226). For every other code point \<open>ucd_excerpt\<close>
  answers: a starter that is no mark, has no decomposition and, the ASCII capitals
  apart, is its own lower case. That is the database's answer for ASCII, not for all of
  Unicode. The excerpt serves where a theorem is evaluated on a concrete string. The
  decompositions are listed block by block, each table under the first code point of
  its range.
\<close>

definition decomposition_00C0 :: "(rune \<times> rune list) list" where
  "decomposition_00C0 =
     [
      (0x00C0, [0x0041, 0x0300]), (0x00C1, [0x0041, 0x0301]), (0x00C2, [0x0041, 0x0302]),
      (0x00C3, [0x0041, 0x0303]), (0x00C8, [0x0045, 0x0300]), (0x00C9, [0x0045, 0x0301]),
      (0x00CA, [0x0045, 0x0302]), (0x00CC, [0x0049, 0x0300]), (0x00CD, [0x0049, 0x0301]),
      (0x00D2, [0x004F, 0x0300]), (0x00D3, [0x004F, 0x0301]), (0x00D4, [0x004F, 0x0302]),
      (0x00D5, [0x004F, 0x0303]), (0x00D9, [0x0055, 0x0300]), (0x00DA, [0x0055, 0x0301]),
      (0x00DD, [0x0059, 0x0301]), (0x00E0, [0x0061, 0x0300]), (0x00E1, [0x0061, 0x0301]),
      (0x00E2, [0x0061, 0x0302]), (0x00E3, [0x0061, 0x0303]), (0x00E8, [0x0065, 0x0300]),
      (0x00E9, [0x0065, 0x0301]), (0x00EA, [0x0065, 0x0302]), (0x00EC, [0x0069, 0x0300]),
      (0x00ED, [0x0069, 0x0301]), (0x00F2, [0x006F, 0x0300]), (0x00F3, [0x006F, 0x0301]),
      (0x00F4, [0x006F, 0x0302]), (0x00F5, [0x006F, 0x0303]), (0x00F9, [0x0075, 0x0300]),
      (0x00FA, [0x0075, 0x0301]), (0x00FD, [0x0079, 0x0301])
     ]"

definition decomposition_0100 :: "(rune \<times> rune list) list" where
  "decomposition_0100 =
     [
      (0x0102, [0x0041, 0x0306]), (0x0103, [0x0061, 0x0306]), (0x0128, [0x0049, 0x0303]),
      (0x0129, [0x0069, 0x0303]), (0x0168, [0x0055, 0x0303]), (0x0169, [0x0075, 0x0303]),
      (0x01A0, [0x004F, 0x031B]), (0x01A1, [0x006F, 0x031B]), (0x01AF, [0x0055, 0x031B]),
      (0x01B0, [0x0075, 0x031B])
     ]"

definition decomposition_1EA0 :: "(rune \<times> rune list) list" where
  "decomposition_1EA0 =
     [
      (0x1EA0, [0x0041, 0x0323]), (0x1EA1, [0x0061, 0x0323]), (0x1EA2, [0x0041, 0x0309]),
      (0x1EA3, [0x0061, 0x0309]), (0x1EA4, [0x0041, 0x0302, 0x0301]), (0x1EA5, [0x0061, 0x0302, 0x0301]),
      (0x1EA6, [0x0041, 0x0302, 0x0300]), (0x1EA7, [0x0061, 0x0302, 0x0300]), (0x1EA8, [0x0041, 0x0302, 0x0309]),
      (0x1EA9, [0x0061, 0x0302, 0x0309]), (0x1EAA, [0x0041, 0x0302, 0x0303]), (0x1EAB, [0x0061, 0x0302, 0x0303]),
      (0x1EAC, [0x0041, 0x0323, 0x0302]), (0x1EAD, [0x0061, 0x0323, 0x0302]), (0x1EAE, [0x0041, 0x0306, 0x0301]),
      (0x1EAF, [0x0061, 0x0306, 0x0301]), (0x1EB0, [0x0041, 0x0306, 0x0300]), (0x1EB1, [0x0061, 0x0306, 0x0300]),
      (0x1EB2, [0x0041, 0x0306, 0x0309]), (0x1EB3, [0x0061, 0x0306, 0x0309]), (0x1EB4, [0x0041, 0x0306, 0x0303]),
      (0x1EB5, [0x0061, 0x0306, 0x0303]), (0x1EB6, [0x0041, 0x0323, 0x0306]), (0x1EB7, [0x0061, 0x0323, 0x0306])
     ]"

definition decomposition_1EB8 :: "(rune \<times> rune list) list" where
  "decomposition_1EB8 =
     [
      (0x1EB8, [0x0045, 0x0323]), (0x1EB9, [0x0065, 0x0323]), (0x1EBA, [0x0045, 0x0309]),
      (0x1EBB, [0x0065, 0x0309]), (0x1EBC, [0x0045, 0x0303]), (0x1EBD, [0x0065, 0x0303]),
      (0x1EBE, [0x0045, 0x0302, 0x0301]), (0x1EBF, [0x0065, 0x0302, 0x0301]), (0x1EC0, [0x0045, 0x0302, 0x0300]),
      (0x1EC1, [0x0065, 0x0302, 0x0300]), (0x1EC2, [0x0045, 0x0302, 0x0309]), (0x1EC3, [0x0065, 0x0302, 0x0309]),
      (0x1EC4, [0x0045, 0x0302, 0x0303]), (0x1EC5, [0x0065, 0x0302, 0x0303]), (0x1EC6, [0x0045, 0x0323, 0x0302]),
      (0x1EC7, [0x0065, 0x0323, 0x0302])
     ]"

definition decomposition_1EC8 :: "(rune \<times> rune list) list" where
  "decomposition_1EC8 =
     [
      (0x1EC8, [0x0049, 0x0309]), (0x1EC9, [0x0069, 0x0309]), (0x1ECA, [0x0049, 0x0323]),
      (0x1ECB, [0x0069, 0x0323]), (0x1ECC, [0x004F, 0x0323]), (0x1ECD, [0x006F, 0x0323]),
      (0x1ECE, [0x004F, 0x0309]), (0x1ECF, [0x006F, 0x0309]), (0x1ED0, [0x004F, 0x0302, 0x0301]),
      (0x1ED1, [0x006F, 0x0302, 0x0301]), (0x1ED2, [0x004F, 0x0302, 0x0300]), (0x1ED3, [0x006F, 0x0302, 0x0300]),
      (0x1ED4, [0x004F, 0x0302, 0x0309]), (0x1ED5, [0x006F, 0x0302, 0x0309]), (0x1ED6, [0x004F, 0x0302, 0x0303]),
      (0x1ED7, [0x006F, 0x0302, 0x0303]), (0x1ED8, [0x004F, 0x0323, 0x0302]), (0x1ED9, [0x006F, 0x0323, 0x0302]),
      (0x1EDA, [0x004F, 0x031B, 0x0301]), (0x1EDB, [0x006F, 0x031B, 0x0301]), (0x1EDC, [0x004F, 0x031B, 0x0300]),
      (0x1EDD, [0x006F, 0x031B, 0x0300]), (0x1EDE, [0x004F, 0x031B, 0x0309]), (0x1EDF, [0x006F, 0x031B, 0x0309]),
      (0x1EE0, [0x004F, 0x031B, 0x0303]), (0x1EE1, [0x006F, 0x031B, 0x0303]), (0x1EE2, [0x004F, 0x031B, 0x0323]),
      (0x1EE3, [0x006F, 0x031B, 0x0323])
     ]"

definition decomposition_1EE4 :: "(rune \<times> rune list) list" where
  "decomposition_1EE4 =
     [
      (0x1EE4, [0x0055, 0x0323]), (0x1EE5, [0x0075, 0x0323]), (0x1EE6, [0x0055, 0x0309]),
      (0x1EE7, [0x0075, 0x0309]), (0x1EE8, [0x0055, 0x031B, 0x0301]), (0x1EE9, [0x0075, 0x031B, 0x0301]),
      (0x1EEA, [0x0055, 0x031B, 0x0300]), (0x1EEB, [0x0075, 0x031B, 0x0300]), (0x1EEC, [0x0055, 0x031B, 0x0309]),
      (0x1EED, [0x0075, 0x031B, 0x0309]), (0x1EEE, [0x0055, 0x031B, 0x0303]), (0x1EEF, [0x0075, 0x031B, 0x0303]),
      (0x1EF0, [0x0055, 0x031B, 0x0323]), (0x1EF1, [0x0075, 0x031B, 0x0323]), (0x1EF2, [0x0059, 0x0300]),
      (0x1EF3, [0x0079, 0x0300]), (0x1EF4, [0x0059, 0x0323]), (0x1EF5, [0x0079, 0x0323]),
      (0x1EF6, [0x0059, 0x0309]), (0x1EF7, [0x0079, 0x0309]), (0x1EF8, [0x0059, 0x0303]),
      (0x1EF9, [0x0079, 0x0303])
     ]"

definition lower_table :: "(rune \<times> rune) list" where
  "lower_table =
     [
      (0x00C0, 0x00E0), (0x00C1, 0x00E1), (0x00C2, 0x00E2), (0x00C3, 0x00E3), (0x00C8, 0x00E8),
      (0x00C9, 0x00E9), (0x00CA, 0x00EA), (0x00CC, 0x00EC), (0x00CD, 0x00ED), (0x00D2, 0x00F2),
      (0x00D3, 0x00F3), (0x00D4, 0x00F4), (0x00D5, 0x00F5), (0x00D9, 0x00F9), (0x00DA, 0x00FA),
      (0x00DD, 0x00FD), (0x0102, 0x0103), (0x0110, 0x0111), (0x0128, 0x0129), (0x0168, 0x0169),
      (0x01A0, 0x01A1), (0x01AF, 0x01B0), (0x1EA0, 0x1EA1), (0x1EA2, 0x1EA3), (0x1EA4, 0x1EA5),
      (0x1EA6, 0x1EA7), (0x1EA8, 0x1EA9), (0x1EAA, 0x1EAB), (0x1EAC, 0x1EAD), (0x1EAE, 0x1EAF),
      (0x1EB0, 0x1EB1), (0x1EB2, 0x1EB3), (0x1EB4, 0x1EB5), (0x1EB6, 0x1EB7), (0x1EB8, 0x1EB9),
      (0x1EBA, 0x1EBB), (0x1EBC, 0x1EBD), (0x1EBE, 0x1EBF), (0x1EC0, 0x1EC1), (0x1EC2, 0x1EC3),
      (0x1EC4, 0x1EC5), (0x1EC6, 0x1EC7), (0x1EC8, 0x1EC9), (0x1ECA, 0x1ECB), (0x1ECC, 0x1ECD),
      (0x1ECE, 0x1ECF), (0x1ED0, 0x1ED1), (0x1ED2, 0x1ED3), (0x1ED4, 0x1ED5), (0x1ED6, 0x1ED7),
      (0x1ED8, 0x1ED9), (0x1EDA, 0x1EDB), (0x1EDC, 0x1EDD), (0x1EDE, 0x1EDF), (0x1EE0, 0x1EE1),
      (0x1EE2, 0x1EE3), (0x1EE4, 0x1EE5), (0x1EE6, 0x1EE7), (0x1EE8, 0x1EE9), (0x1EEA, 0x1EEB),
      (0x1EEC, 0x1EED), (0x1EEE, 0x1EEF), (0x1EF0, 0x1EF1), (0x1EF2, 0x1EF3), (0x1EF4, 0x1EF5),
      (0x1EF6, 0x1EF7), (0x1EF8, 0x1EF9)
     ]"

definition lookup_decomposition :: "(rune \<times> rune list) list \<Rightarrow> rune \<Rightarrow> rune list" where
  "lookup_decomposition table r = (case map_of table r of Some d \<Rightarrow> d | None \<Rightarrow> [r])"

definition ucd_excerpt :: unicode_data where
  "ucd_excerpt =
     \<lparr> decomposition = (\<lambda>r.
         if r < 0xC0 then [r]
         else if r < 0x100 then lookup_decomposition decomposition_00C0 r
         else if r < 0x1EA0 then lookup_decomposition decomposition_0100 r
         else if r < 0x1EB8 then lookup_decomposition decomposition_1EA0 r
         else if r < 0x1EC8 then lookup_decomposition decomposition_1EB8 r
         else if r < 0x1EE4 then lookup_decomposition decomposition_1EC8 r
         else if r < 0x1EFA then lookup_decomposition decomposition_1EE4 r
         else [r]),
       combining_class = (\<lambda>r.
         if r = 0x300 \<or> r = 0x301 \<or> r = 0x302 \<or> r = 0x303 \<or> r = 0x306 \<or> r = 0x309 then 230
         else if r = 0x31B then 216
         else if r = 0x323 then 220
         else if r = 0x1D165 then 216
         else if r = 0x1D16D then 226
         else 0),
       is_Mn = (\<lambda>r.
         r = 0x300 \<or> r = 0x301 \<or> r = 0x302 \<or> r = 0x303 \<or> r = 0x306 \<or> r = 0x309 \<or>
         r = 0x31B \<or> r = 0x323 \<or> r = 0x34F),
       to_lower = (\<lambda>r.
         if r < 0x80 then (if 0x41 \<le> r \<and> r \<le> 0x5A then r + 0x20 else r)
         else (case map_of lower_table r of Some l \<Rightarrow> l | None \<Rightarrow> r)) \<rparr>"

section \<open>The lookup drivers\<close>

text \<open>
  The dictionary is a Go map, ranged over in an order the run chooses. \<open>dict\<close> is the
  list of its keys in the order the loop visits them; the list returned holds the words
  printed, in the order of printing. \<open>query\<close> is the line read, after
  \<^verbatim>\<open>strings.TrimSpace\<close>.

  \<open>range_print test dict out\<close> is \<^verbatim>\<open>for word := range dict { if test(word) { print word } }\<close>.
\<close>

fun range_print ::
  "(rune list \<Rightarrow> panic + bool) \<Rightarrow> rune list list \<Rightarrow> rune list list \<Rightarrow> panic + rune list list" where
  "range_print test [] out = Inr out"
| "range_print test (word # rest) out =
     (case test word of
        Inl e \<Rightarrow> Inl e
      | Inr True \<Rightarrow> range_print test rest (out @ [word])
      | Inr False \<Rightarrow> range_print test rest out)"

datatype ui_result = Quit | Help | Clear | Matches "rune list list"





text \<open>
  The \<^verbatim>\<open>switch\<close> of \<^verbatim>\<open>main\<close> in the earlier revision: a query with a hyphen goes to the
  hyphen dialect, any other to the two-argument wildcard matcher.
\<close>

definition main_v1 :: "unicode_data \<Rightarrow> rune list list \<Rightarrow> rune list \<Rightarrow> panic + ui_result" where
  "main_v1 ud dict query =
     (if query = runes ''!help'' then Inr Help
      else if strings_ContainsRune query hyphen then
        (case parsePattern query of
           (conds, mustChars) \<Rightarrow>
             (case range_print
                     (\<lambda>word. matchSyllablePatternWithChars (removeDiacritics ud word) conds mustChars)
                     dict [] of
                Inl e \<Rightarrow> Inl e
              | Inr out \<Rightarrow> Inr (Matches out)))
      else
        (let queryNorm = strings_ToLower ud (removeDiacritics ud query)
         in case range_print
                 (\<lambda>word. matchWildcard_v1 queryNorm (strings_ToLower ud (removeDiacritics ud word)))
                 dict [] of
              Inl e \<Rightarrow> Inl e
            | Inr out \<Rightarrow> Inr (Matches out)))"


subsection \<open>The hyphen dialect as the specification words it\<close>

text \<open>
  The word has as many syllables as there are length constraints, and each syllable has
  the number of runes its constraint gives.
\<close>

definition syllable_lengths_fit :: "rune list \<Rightarrow> SyllableCond list \<Rightarrow> bool" where
  "syllable_lengths_fit word conds =
     (length (strings_Fields word) = length conds \<and>
      list_all (\<lambda>(part, cond). int (length part) = Length cond) (zip (strings_Fields word) conds))"

subsection \<open>What the normalizer needs of the Unicode data\<close>

text \<open>
  Two properties of the Unicode Character Database: a full canonical decomposition holds
  no rune that decomposes further, and the letters \<open>d\<close> and \<open>D\<close> have no decomposition
  and are no marks.
\<close>

definition decomposition_closed :: "unicode_data \<Rightarrow> bool" where
  "decomposition_closed ud =
     ((\<forall>r. \<forall>c\<in>set (decomposition ud r). decomposition ud c = [c]) \<and>
      decomposition ud 0x64 = [0x64] \<and> decomposition ud 0x44 = [0x44] \<and>
      \<not> is_Mn ud 0x64 \<and> \<not> is_Mn ud 0x44)"

lemmas string_defs =
  runes_def star_def space_def hyphen_def plus_sign_def unicode_IsSpace_def
  strings_Fields_def normalizeSpaces_def strings_ContainsRune_def utf8_RuneCountInString_def

lemmas template_defs =
  template_fits_def wildcard_chars_def template_syllables_def word_syllables_def
  syllable_fits_def captured_cells_def

section \<open>The matchers compute the specification's predicates\<close>

subsection \<open>The wildcard matcher\<close>

lemma cells_loop_upt:
  "length pw = n \<Longrightarrow> length tw = n \<Longrightarrow> k \<le> n \<Longrightarrow>
   cells_loop pw tw [k..<n] acc =
     Inr (if list_all (\<lambda>(p, t). p = star \<or> p = t) (zip (drop k pw) (drop k tw))
          then Some (acc @ map snd (filter (\<lambda>(p, t). p = star) (zip (drop k pw) (drop k tw))))
          else None)"
proof (induction "n - k" arbitrary: k acc)
  case 0
  then show ?case by simp
next
  case (Suc m)
  then have lt: "k < n" "k < length pw" "k < length tw" by simp_all
  have step: "[k..<n] = k # [Suc k..<n]"
    using lt by (simp add: upt_conv_Cons)
  have dp: "drop k pw = pw ! k # drop (Suc k) pw" and dt: "drop k tw = tw ! k # drop (Suc k) tw"
    using lt by (simp_all add: Cons_nth_drop_Suc)
  have ih: "cells_loop pw tw [Suc k..<n] acc' =
     Inr (if list_all (\<lambda>(p, t). p = star \<or> p = t) (zip (drop (Suc k) pw) (drop (Suc k) tw))
          then Some (acc' @ map snd (filter (\<lambda>(p, t). p = star) (zip (drop (Suc k) pw) (drop (Suc k) tw))))
          else None)" for acc'
    using Suc.hyps(1)[of "Suc k" acc'] Suc.hyps(2) Suc.prems lt by simp
  have ix: "index pw k = Inr (pw ! k)" "index tw k = Inr (tw ! k)"
    using lt by (simp_all add: index_def)
  show ?case
    unfolding step dp dt by (simp add: ix ih)
qed

lemma cells_loop_fits:
  assumes "length pw = length tw"
  shows "cells_loop pw tw [0..<length pw] acc =
     Inr (if syllable_fits pw tw then Some (acc @ captured_cells pw tw) else None)"
proof -
  have "length tw = length pw" using assms by simp
  then have "cells_loop pw tw [0..<length pw] acc =
     Inr (if list_all (\<lambda>(p, t). p = star \<or> p = t) (zip (drop 0 pw) (drop 0 tw))
          then Some (acc @ map snd (filter (\<lambda>(p, t). p = star) (zip (drop 0 pw) (drop 0 tw))))
          else None)"
    by (intro cells_loop_upt) simp_all
  then show ?thesis
    unfolding syllable_fits_def captured_cells_def drop_0 using assms by simp
qed

lemma words_loop_upt:
  "length pWords = n \<Longrightarrow> length tWords = n \<Longrightarrow> k \<le> n \<Longrightarrow>
   words_loop pWords tWords [k..<n] acc =
     Inr (if list_all (\<lambda>(pw, tw). syllable_fits pw tw) (zip (drop k pWords) (drop k tWords))
          then Some (acc @ concat (map (\<lambda>(pw, tw). captured_cells pw tw)
                       (zip (drop k pWords) (drop k tWords))))
          else None)"
proof (induction "n - k" arbitrary: k acc)
  case 0
  then show ?case by simp
next
  case (Suc m)
  then have lt: "k < n" "k < length pWords" "k < length tWords" by simp_all
  have step: "[k..<n] = k # [Suc k..<n]"
    using lt by (simp add: upt_conv_Cons)
  have dp: "drop k pWords = pWords ! k # drop (Suc k) pWords"
    and dt: "drop k tWords = tWords ! k # drop (Suc k) tWords"
    using lt by (simp_all add: Cons_nth_drop_Suc)
  have ih: "words_loop pWords tWords [Suc k..<n] acc' =
     Inr (if list_all (\<lambda>(pw, tw). syllable_fits pw tw) (zip (drop (Suc k) pWords) (drop (Suc k) tWords))
          then Some (acc' @ concat (map (\<lambda>(pw, tw). captured_cells pw tw)
                       (zip (drop (Suc k) pWords) (drop (Suc k) tWords))))
          else None)" for acc'
    using Suc.hyps(1)[of "Suc k" acc'] Suc.hyps(2) Suc.prems lt by simp
  have ix: "index pWords k = Inr (pWords ! k)" "index tWords k = Inr (tWords ! k)"
    using lt by (simp_all add: index_def)
  show ?case
  proof (cases "length (pWords ! k) = length (tWords ! k)")
    case False
    then show ?thesis
      unfolding step dp dt by (simp add: ix syllable_fits_def)
  next
    case True
    have cl: "cells_loop (pWords ! k) (tWords ! k) [0..<length (pWords ! k)] acc =
       Inr (if syllable_fits (pWords ! k) (tWords ! k)
            then Some (acc @ captured_cells (pWords ! k) (tWords ! k)) else None)"
      by (rule cells_loop_fits[OF True])
    have wl: "words_loop pWords tWords (k # [Suc k..<n]) acc =
      (case cells_loop (pWords ! k) (tWords ! k) [0..<length (pWords ! k)] acc of
         Inl e \<Rightarrow> Inl e | Inr None \<Rightarrow> Inr None
       | Inr (Some acc') \<Rightarrow> words_loop pWords tWords [Suc k..<n] acc')"
      using True by (simp add: ix)
    show ?thesis
      unfolding step dp dt wl cl by (simp add: ih)
  qed
qed

lemma required_loop_iff: "required_loop w req = (set req \<subseteq> set w)"
  by (induction req) (auto simp: strings_ContainsRune_def)

lemma excluded_loop_iff: "excluded_loop w exc = (set exc \<inter> set w = {})"
  by (induction exc) (auto simp: strings_ContainsRune_def)

lemma matchWildcard_eq:
  "matchWildcard pattern text required excluded =
     Inr (template_fits pattern text \<and>
          set required \<subseteq> set (wildcard_chars pattern text) \<and>
          set excluded \<inter> set (wildcard_chars pattern text) = {})"
proof (cases "length (template_syllables pattern) = length (word_syllables text)")
  case False
  then show ?thesis
    by (simp add: matchWildcard_def template_fits_def template_syllables_def word_syllables_def)
next
  case True
  have "words_loop (template_syllables pattern) (word_syllables text)
          [0..<length (template_syllables pattern)] [] =
        Inr (if template_fits pattern text then Some (wildcard_chars pattern text) else None)"
    using words_loop_upt[OF refl True[symmetric], of 0 "[]"] True
    by (simp add: template_fits_def wildcard_chars_def)
  then show ?thesis using True
    by (simp add: matchWildcard_def template_syllables_def word_syllables_def
        required_loop_iff excluded_loop_iff)
qed

subsection \<open>Fields, syllables and white space\<close>

lemma fields_from_empty_iff:
  "fields_from cur s = [] \<longleftrightarrow> cur = [] \<and> (\<forall>c\<in>set s. unicode_IsSpace c)"
  by (induction s arbitrary: cur) auto

lemma strings_Fields_empty_iff:
  "strings_Fields s = [] \<longleftrightarrow> (\<forall>c\<in>set s. unicode_IsSpace c)"
  by (simp add: strings_Fields_def fields_from_empty_iff)

lemma fields_from_words:
  "\<forall>c\<in>set cur. \<not> unicode_IsSpace c \<Longrightarrow>
   \<forall>w\<in>set (fields_from cur s). w \<noteq> [] \<and> (\<forall>c\<in>set w. \<not> unicode_IsSpace c)"
proof (induction s arbitrary: cur)
  case Nil
  then show ?case by simp
next
  case (Cons a s)
  have fresh: "\<forall>w\<in>set (fields_from [] s). w \<noteq> [] \<and> (\<forall>c\<in>set w. \<not> unicode_IsSpace c)"
    by (rule Cons.IH) simp
  show ?case
  proof (cases "unicode_IsSpace a")
    case True
    then show ?thesis using fresh Cons.prems by simp
  next
    case False
    have "\<forall>w\<in>set (fields_from (cur @ [a]) s). w \<noteq> [] \<and> (\<forall>c\<in>set w. \<not> unicode_IsSpace c)"
      by (rule Cons.IH) (use False Cons.prems in simp)
    then show ?thesis using False by simp
  qed
qed

lemma strings_Fields_words:
  "w \<in> set (strings_Fields s) \<Longrightarrow> w \<noteq> [] \<and> (\<forall>c\<in>set w. \<not> unicode_IsSpace c)"
  using fields_from_words[of "[]" s] by (simp add: strings_Fields_def)

lemma space_is_space: "unicode_IsSpace space"
  by (simp add: unicode_IsSpace_def space_def)

lemma strings_Split_no_sep: "sep \<notin> set w \<Longrightarrow> strings_Split w sep = [w]"
  by (induction w) auto

lemma strings_Split_append_sep:
  "sep \<notin> set w \<Longrightarrow> strings_Split (w @ sep # rest) sep = w # strings_Split rest sep"
  by (induction w) auto

lemma strings_Split_Join:
  "ws \<noteq> [] \<Longrightarrow> \<forall>w\<in>set ws. sep \<notin> set w \<Longrightarrow>
   strings_Split (strings_Join ws [sep]) sep = ws"
  by (induction ws "[sep]" rule: strings_Join.induct)
     (simp_all add: strings_Split_no_sep strings_Split_append_sep)

lemma strings_Split_normalizeSpaces:
  "strings_Split (normalizeSpaces s) space =
     (if strings_Fields s = [] then [[]] else strings_Fields s)"
proof (cases "strings_Fields s = []")
  case True
  then show ?thesis by (simp add: normalizeSpaces_def)
next
  case False
  have "\<forall>w\<in>set (strings_Fields s). space \<notin> set w"
    using strings_Fields_words space_is_space by blast
  with False show ?thesis
    by (simp add: normalizeSpaces_def strings_Split_Join)
qed

lemma template_syllables_Fields:
  "template_syllables pattern =
     (if strings_Fields pattern = [] then [[]] else strings_Fields pattern)"
  by (simp add: template_syllables_def strings_Split_normalizeSpaces)

lemma word_syllables_Fields:
  "normalizeSpaces text = text \<Longrightarrow>
   word_syllables text = (if strings_Fields text = [] then [[]] else strings_Fields text)"
  using strings_Split_normalizeSpaces[of "text"] by (simp add: word_syllables_def)

lemma template_fits_Fields_count:
  assumes norm: "normalizeSpaces text = text"
    and fits: "template_fits pattern text"
  shows "length (strings_Fields pattern) = length (strings_Fields text)"
proof -
  let ?P = "strings_Fields pattern" and ?T = "strings_Fields text"
  have len: "length (template_syllables pattern) = length (word_syllables text)"
    and all: "list_all (\<lambda>(pw, tw). syllable_fits pw tw)
                (zip (template_syllables pattern) (word_syllables text))"
    using fits by (simp_all add: template_fits_def)
  show ?thesis
  proof (cases "?P = []")
    case pe: True
    show ?thesis
    proof (cases "?T = []")
      case True
      with pe show ?thesis by simp
    next
      case False
      with pe len norm have "length ?T = 1"
        by (simp add: template_syllables_Fields word_syllables_Fields)
      then obtain w where w: "?T = [w]"
        by (cases ?T) auto
      then have "w \<noteq> []" using strings_Fields_words[of w "text"] by simp
      with all pe w norm show ?thesis
        by (simp add: template_syllables_Fields word_syllables_Fields syllable_fits_def)
    qed
  next
    case pne: False
    show ?thesis
    proof (cases "?T = []")
      case True
      with pne len norm have "length ?P = 1"
        by (simp add: template_syllables_Fields word_syllables_Fields)
      then obtain w where w: "?P = [w]"
        by (cases ?P) auto
      then have "w \<noteq> []" using strings_Fields_words[of w pattern] by simp
      with all True w norm show ?thesis
        by (simp add: template_syllables_Fields word_syllables_Fields syllable_fits_def)
    next
      case False
      with pne len norm show ?thesis
        by (simp add: template_syllables_Fields word_syllables_Fields)
    qed
  qed
qed

subsection \<open>The syllable matcher computes the specification's predicate\<close>

lemma syllables_loop_eq:
  "\<forall>(i, part)\<in>set ips. i < length conds \<Longrightarrow>
   syllables_loop ips conds =
     Inr (list_all (\<lambda>(i, part). utf8_RuneCountInString part = Length (conds ! i)) ips)"
  by (induction ips conds rule: syllables_loop.induct) (auto simp: index_def)

lemma enumerate_all_iff:
  assumes "length parts = length conds"
  shows "list_all (\<lambda>(i, part). utf8_RuneCountInString part = Length (conds ! i))
           (zip [0..<length parts] parts) =
         list_all (\<lambda>(part, cond). int (length part) = Length cond) (zip parts conds)"
  using assms by (auto simp: list_all_length utf8_RuneCountInString_def)

lemma mustChars_loop_iff: "mustChars_loop word mustChars = (set mustChars \<subseteq> set word)"
  by (induction mustChars) (auto simp: strings_ContainsRune_def)

lemma matchSyllablePatternWithChars_eq:
  "matchSyllablePatternWithChars word conds mustChars =
     Inr (syllable_lengths_fit word conds \<and> set mustChars \<subseteq> set word)"
proof (cases "length (strings_Fields word) = length conds")
  case False
  then show ?thesis
    by (simp add: matchSyllablePatternWithChars_def syllable_lengths_fit_def)
next
  case True
  have "\<forall>(i, part)\<in>set (zip [0..<length (strings_Fields word)] (strings_Fields word)).
          i < length conds"
    using True by (auto dest: set_zip_leftD)
  then have "syllables_loop (zip [0..<length (strings_Fields word)] (strings_Fields word)) conds =
     Inr (list_all (\<lambda>(part, cond). int (length part) = Length cond)
            (zip (strings_Fields word) conds))"
    by (simp add: syllables_loop_eq enumerate_all_iff[OF True])
  then show ?thesis using True
    by (simp add: matchSyllablePatternWithChars_def syllable_lengths_fit_def mustChars_loop_iff
        split: bool.split)
qed

section \<open>The claims about the matchers\<close>

text \<open>
  C1. Where the template fits the word position by position, \<^verbatim>\<open>matchWildcard\<close> succeeds
  exactly when every required rune is among the runes under the wildcard cells and no
  excluded rune is. The runes under literal cells play no part: \<open>v\<close> stands under a
  literal cell of \<^verbatim>\<open>"viet ***"\<close> only, so requiring it fails and excluding it does no
  harm. The two examples of the claim are both false.
\<close>

theorem matchWildcard_required_excluded_scope:
  "(template_fits pattern text \<longrightarrow>
      (matchWildcard pattern text required excluded = Inr True) =
      (set required \<subseteq> set (wildcard_chars pattern text) \<and>
       set excluded \<inter> set (wildcard_chars pattern text) = {})) \<and>
   matchWildcard (runes ''viet ***'') (runes ''viet hoa'') [] (runes ''oh'') = Inr False \<and>
   matchWildcard (runes ''viet ***'') (runes ''viet ngu'') (runes ''a'') [] = Inr False \<and>
   matchWildcard (runes ''viet ***'') (runes ''viet nam'') (runes ''v'') [] = Inr False \<and>
   matchWildcard (runes ''viet ***'') (runes ''viet nam'') [] (runes ''v'') = Inr True"
proof (intro conjI impI)
  assume "template_fits pattern text"
  then show "(matchWildcard pattern text required excluded = Inr True) =
      (set required \<subseteq> set (wildcard_chars pattern text) \<and>
       set excluded \<inter> set (wildcard_chars pattern text) = {})"
    by (simp add: matchWildcard_eq)
qed (simp_all add: matchWildcard_eq template_defs string_defs)

theorem matchWildcard_required_excluded_scope_witness:
  "template_fits (runes ''viet ***'') (runes ''viet nam'') \<and>
   wildcard_chars (runes ''viet ***'') (runes ''viet nam'') = runes ''nam'' \<and>
   matchWildcard (runes ''viet ***'') (runes ''viet nam'') (runes ''a'') (runes ''oh'') = Inr True \<and>
   matchWildcard (runes ''viet ***'') (runes ''viet nam'') (runes ''ae'') (runes ''oh'') = Inr False"
proof -
  have fits: "template_fits (runes ''viet ***'') (runes ''viet nam'')"
    by (simp add: template_defs string_defs)
  have chars: "wildcard_chars (runes ''viet ***'') (runes ''viet nam'') = runes ''nam''"
    by (simp add: template_defs string_defs)
  have "(matchWildcard (runes ''viet ***'') (runes ''viet nam'') (runes ''a'') (runes ''oh'') = Inr True) =
      (set (runes ''a'') \<subseteq> set (wildcard_chars (runes ''viet ***'') (runes ''viet nam'')) \<and>
       set (runes ''oh'') \<inter> set (wildcard_chars (runes ''viet ***'') (runes ''viet nam'')) = {})"
    using matchWildcard_required_excluded_scope
            [of "runes ''viet ***''" "runes ''viet nam''" "runes ''a''" "runes ''oh''"] fits
    by blast
  then have a: "matchWildcard (runes ''viet ***'') (runes ''viet nam'') (runes ''a'') (runes ''oh'') = Inr True"
    unfolding chars by (simp add: runes_def)
  have "(matchWildcard (runes ''viet ***'') (runes ''viet nam'') (runes ''ae'') (runes ''oh'') = Inr True) =
      (set (runes ''ae'') \<subseteq> set (wildcard_chars (runes ''viet ***'') (runes ''viet nam'')) \<and>
       set (runes ''oh'') \<inter> set (wildcard_chars (runes ''viet ***'') (runes ''viet nam'')) = {})"
    using matchWildcard_required_excluded_scope
            [of "runes ''viet ***''" "runes ''viet nam''" "runes ''ae''" "runes ''oh''"] fits
    by blast
  then have "matchWildcard (runes ''viet ***'') (runes ''viet nam'') (runes ''ae'') (runes ''oh'') \<noteq> Inr True"
    unfolding chars by (simp add: runes_def)
  then have b: "matchWildcard (runes ''viet ***'') (runes ''viet nam'') (runes ''ae'') (runes ''oh'') = Inr False"
    by (simp add: matchWildcard_eq)
  from fits chars a b show ?thesis by simp
qed

text \<open>
  C9. When some rune is both required and excluded, \<^verbatim>\<open>matchWildcard\<close> returns false
  for every pattern and every word.
\<close>

theorem matchWildcard_required_excluded_clash:
  "set required \<inter> set excluded \<noteq> {} \<Longrightarrow>
   matchWildcard pattern text required excluded = Inr False"
  by (auto simp: matchWildcard_eq)

theorem matchWildcard_required_excluded_clash_witness:
  "set (runes ''na'') \<inter> set (runes ''ax'') \<noteq> {} \<and>
   template_fits (runes ''viet ***'') (runes ''viet nam'') \<and>
   matchWildcard (runes ''viet ***'') (runes ''viet nam'') (runes ''na'') (runes ''ax'') = Inr False"
proof -
  have clash: "set (runes ''na'') \<inter> set (runes ''ax'') \<noteq> {}"
    by (simp add: runes_def)
  have "template_fits (runes ''viet ***'') (runes ''viet nam'')"
    by (simp add: template_defs string_defs)
  with clash matchWildcard_required_excluded_clash[OF clash] show ?thesis by simp
qed

text \<open>
  C8. Both matchers return a boolean on every input: no index is read out of range, so
  neither can panic; where nothing matches the value is false.
\<close>

theorem matchers_never_panic:
  "(\<exists>b. matchWildcard pattern text required excluded = Inr b) \<and>
   (\<exists>b. matchSyllablePatternWithChars word conds mustChars = Inr b)"
  by (simp add: matchWildcard_eq matchSyllablePatternWithChars_eq)

lemma template_fits_nth:
  assumes "template_fits pattern text"
    and "i < length (template_syllables pattern)" and "i < length (word_syllables text)"
  shows "syllable_fits (template_syllables pattern ! i) (word_syllables text ! i)"
  using assms by (auto simp: template_fits_def list_all_length)

lemma syllable_fits_nth:
  assumes "syllable_fits pw tw" and "j < length pw" and "j < length tw"
  shows "pw ! j = star \<or> pw ! j = tw ! j"
  using assms by (auto simp: syllable_fits_def list_all_length)

text \<open>
  C3. \<^verbatim>\<open>matchWildcard\<close> returns false when the pattern and the word split into different
  numbers of syllables (as the code splits them, and also counted as whitespace-separated
  fields when the word is whitespace-normalized), when some template syllable and its
  word syllable differ in their number of runes, and when some literal cell differs from
  the word's rune at its position. \<^verbatim>\<open>"viet ***"\<close> matches \<^verbatim>\<open>"viet nam"\<close> and not
  \<^verbatim>\<open>"viet"\<close>.
\<close>

theorem matchWildcard_shape_mismatch:
  "(length (template_syllables pattern) \<noteq> length (word_syllables text) \<longrightarrow>
      matchWildcard pattern text required excluded = Inr False) \<and>
   (normalizeSpaces text = text \<and>
    length (strings_Fields pattern) \<noteq> length (strings_Fields text) \<longrightarrow>
      matchWildcard pattern text required excluded = Inr False) \<and>
   ((\<exists>i. i < length (template_syllables pattern) \<and> i < length (word_syllables text) \<and>
         length (template_syllables pattern ! i) \<noteq> length (word_syllables text ! i)) \<longrightarrow>
      matchWildcard pattern text required excluded = Inr False) \<and>
   ((\<exists>i j. i < length (template_syllables pattern) \<and> i < length (word_syllables text) \<and>
           j < length (template_syllables pattern ! i) \<and> j < length (word_syllables text ! i) \<and>
           template_syllables pattern ! i ! j \<noteq> star \<and>
           template_syllables pattern ! i ! j \<noteq> word_syllables text ! i ! j) \<longrightarrow>
      matchWildcard pattern text required excluded = Inr False) \<and>
   matchWildcard (runes ''viet ***'') (runes ''viet nam'') [] [] = Inr True \<and>
   matchWildcard (runes ''viet ***'') (runes ''viet'') [] [] = Inr False"
proof (intro conjI impI)
  assume "length (template_syllables pattern) \<noteq> length (word_syllables text)"
  then show "matchWildcard pattern text required excluded = Inr False"
    by (simp add: matchWildcard_eq template_fits_def)
next
  assume "normalizeSpaces text = text \<and>
    length (strings_Fields pattern) \<noteq> length (strings_Fields text)"
  then have "\<not> template_fits pattern text"
    using template_fits_Fields_count by blast
  then show "matchWildcard pattern text required excluded = Inr False"
    by (simp add: matchWildcard_eq)
next
  assume "\<exists>i. i < length (template_syllables pattern) \<and> i < length (word_syllables text) \<and>
         length (template_syllables pattern ! i) \<noteq> length (word_syllables text ! i)"
  then have "\<not> template_fits pattern text"
    using template_fits_nth syllable_fits_def by blast
  then show "matchWildcard pattern text required excluded = Inr False"
    by (simp add: matchWildcard_eq)
next
  assume "\<exists>i j. i < length (template_syllables pattern) \<and> i < length (word_syllables text) \<and>
           j < length (template_syllables pattern ! i) \<and> j < length (word_syllables text ! i) \<and>
           template_syllables pattern ! i ! j \<noteq> star \<and>
           template_syllables pattern ! i ! j \<noteq> word_syllables text ! i ! j"
  then have "\<not> template_fits pattern text"
    using template_fits_nth syllable_fits_nth by blast
  then show "matchWildcard pattern text required excluded = Inr False"
    by (simp add: matchWildcard_eq)
qed (simp_all add: matchWildcard_eq template_defs string_defs)

theorem matchWildcard_shape_mismatch_witness:
  "length (template_syllables (runes ''viet ***'')) \<noteq> length (word_syllables (runes ''viet'')) \<and>
   normalizeSpaces (runes ''viet'') = runes ''viet'' \<and>
   length (strings_Fields (runes ''viet ***'')) \<noteq> length (strings_Fields (runes ''viet'')) \<and>
   matchWildcard (runes ''viet ***'') (runes ''viet'') [] [] = Inr False \<and>
   length (template_syllables (runes ''viet ***'') ! 1) \<noteq> length (word_syllables (runes ''viet na'') ! 1) \<and>
   matchWildcard (runes ''viet ***'') (runes ''viet na'') [] [] = Inr False \<and>
   template_syllables (runes ''viet ***'') ! 0 ! 3 \<noteq> star \<and>
   template_syllables (runes ''viet ***'') ! 0 ! 3 \<noteq> word_syllables (runes ''vien nam'') ! 0 ! 3 \<and>
   matchWildcard (runes ''viet ***'') (runes ''vien nam'') [] [] = Inr False"
proof -
  let ?p = "runes ''viet ***''"
  have ts: "template_syllables ?p = [runes ''viet'', runes ''***'']"
    by (simp add: template_defs string_defs)
  have w1: "word_syllables (runes ''viet'') = [runes ''viet'']"
    and w2: "word_syllables (runes ''viet na'') = [runes ''viet'', runes ''na'']"
    and w3: "word_syllables (runes ''vien nam'') = [runes ''vien'', runes ''nam'']"
    by (simp_all add: template_defs string_defs)
  have c1: "length (template_syllables ?p) \<noteq> length (word_syllables (runes ''viet''))"
    by (simp add: ts w1)
  have n1: "normalizeSpaces (runes ''viet'') = runes ''viet''"
    by (simp add: string_defs)
  have f1: "length (strings_Fields ?p) \<noteq> length (strings_Fields (runes ''viet''))"
    by (simp add: string_defs)
  have r1: "matchWildcard ?p (runes ''viet'') [] [] = Inr False"
    using matchWildcard_shape_mismatch[of ?p "runes ''viet''" "[]" "[]"] n1 f1 by blast
  have c2: "length (template_syllables ?p ! 1) \<noteq> length (word_syllables (runes ''viet na'') ! 1)"
    unfolding ts w2 by (simp add: runes_def)
  then have "\<exists>i. i < length (template_syllables ?p) \<and> i < length (word_syllables (runes ''viet na'')) \<and>
         length (template_syllables ?p ! i) \<noteq> length (word_syllables (runes ''viet na'') ! i)"
    unfolding ts w2 by (intro exI[of _ 1]) simp
  then have r2: "matchWildcard ?p (runes ''viet na'') [] [] = Inr False"
    using matchWildcard_shape_mismatch[of ?p "runes ''viet na''" "[]" "[]"] by blast
  have c3: "template_syllables ?p ! 0 ! 3 \<noteq> star"
    "template_syllables ?p ! 0 ! 3 \<noteq> word_syllables (runes ''vien nam'') ! 0 ! 3"
    unfolding ts w3 by (simp_all add: runes_def star_def)
  then have "\<exists>i j. i < length (template_syllables ?p) \<and> i < length (word_syllables (runes ''vien nam'')) \<and>
           j < length (template_syllables ?p ! i) \<and> j < length (word_syllables (runes ''vien nam'') ! i) \<and>
           template_syllables ?p ! i ! j \<noteq> star \<and>
           template_syllables ?p ! i ! j \<noteq> word_syllables (runes ''vien nam'') ! i ! j"
    unfolding ts w3 by (intro exI[of _ 0] exI[of _ 3]) (simp add: runes_def)
  then have r3: "matchWildcard ?p (runes ''vien nam'') [] [] = Inr False"
    using matchWildcard_shape_mismatch[of ?p "runes ''vien nam''" "[]" "[]"] by blast
  from c1 n1 f1 r1 c2 r2 c3 r3 show ?thesis by blast
qed

section \<open>The claims about the hyphen dialect\<close>

lemmas atoi_defs = strconv_Atoi_def is_digit_def parsePattern_def

lemma parse_loop_eq:
  "parse_loop ps conds mustChars =
     (conds @ concat (map (\<lambda>p. case strconv_Atoi p of Inr n \<Rightarrow> [\<lparr>Length = n\<rparr>] | Inl e \<Rightarrow> []) ps),
      mustChars @ concat (map (\<lambda>p. case strconv_Atoi p of Inr n \<Rightarrow> [] | Inl e \<Rightarrow> p) ps))"
  by (induction ps arbitrary: conds mustChars) (simp_all split: sum.split)

lemma parsePattern_3_4_aug:
  "parsePattern (runes ''3-4-aug'') = ([\<lparr>Length = 3\<rparr>, \<lparr>Length = 4\<rparr>], runes ''aug'')"
  by (simp add: atoi_defs string_defs)

text \<open>
  C5. \<^verbatim>\<open>parsePattern\<close> returns a result for every query: of the parts between the
  hyphens, those that \<^verbatim>\<open>strconv.Atoi\<close> accepts become the length constraints, in order,
  and the runes of all the others are concatenated into the must-contain string.
  \<^verbatim>\<open>"3-4-abc"\<close> gives the constraints 3 and 4 and the must-contain string \<^verbatim>\<open>"abc"\<close>.
\<close>

theorem parsePattern_never_fails:
  "parsePattern query =
     (concat (map (\<lambda>p. case strconv_Atoi p of Inr n \<Rightarrow> [\<lparr>Length = n\<rparr>] | Inl e \<Rightarrow> [])
        (strings_Split query hyphen)),
      concat (map (\<lambda>p. case strconv_Atoi p of Inr n \<Rightarrow> [] | Inl e \<Rightarrow> p)
        (strings_Split query hyphen))) \<and>
   parsePattern (runes ''3-4-abc'') = ([\<lparr>Length = 3\<rparr>, \<lparr>Length = 4\<rparr>], runes ''abc'')"
proof
  show "parsePattern query =
     (concat (map (\<lambda>p. case strconv_Atoi p of Inr n \<Rightarrow> [\<lparr>Length = n\<rparr>] | Inl e \<Rightarrow> [])
        (strings_Split query hyphen)),
      concat (map (\<lambda>p. case strconv_Atoi p of Inr n \<Rightarrow> [] | Inl e \<Rightarrow> p)
        (strings_Split query hyphen)))"
    by (simp add: parsePattern_def parse_loop_eq)
  show "parsePattern (runes ''3-4-abc'') = ([\<lparr>Length = 3\<rparr>, \<lparr>Length = 4\<rparr>], runes ''abc'')"
    by (simp add: atoi_defs string_defs)
qed

text \<open>
  C4. In the hyphen dialect the must-contain check looks at the whole word, not at
  positions: where the syllables have the lengths asked for, the word matches exactly
  when every must-contain rune occurs somewhere in the word as given (not split), and no
  word matches without that. For \<^verbatim>\<open>"3-4-aug"\<close> the runes \<open>a\<close>, \<open>u\<close>, \<open>g\<close> may stand
  anywhere: in one syllable (\<^verbatim>\<open>"gau xanh"\<close>) or across both (\<^verbatim>\<open>"xau ngoc"\<close>); a word
  that lacks one of them (\<^verbatim>\<open>"cau xanh"\<close>) does not match.
\<close>

theorem mustChars_whole_word:
  "(syllable_lengths_fit word conds \<longrightarrow>
      (matchSyllablePatternWithChars word conds mustChars = Inr True) =
      (set mustChars \<subseteq> set word)) \<and>
   (matchSyllablePatternWithChars word conds mustChars = Inr True \<longrightarrow>
      set mustChars \<subseteq> set word) \<and>
   (matchSyllablePatternWithChars word
      (fst (parsePattern (runes ''3-4-aug''))) (snd (parsePattern (runes ''3-4-aug''))) = Inr True \<longrightarrow>
      of_char CHR ''a'' \<in> set word \<and> of_char CHR ''u'' \<in> set word \<and> of_char CHR ''g'' \<in> set word) \<and>
   matchSyllablePatternWithChars (runes ''gau xanh'')
      (fst (parsePattern (runes ''3-4-aug''))) (snd (parsePattern (runes ''3-4-aug''))) = Inr True \<and>
   matchSyllablePatternWithChars (runes ''xau ngoc'')
      (fst (parsePattern (runes ''3-4-aug''))) (snd (parsePattern (runes ''3-4-aug''))) = Inr True \<and>
   matchSyllablePatternWithChars (runes ''cau xanh'')
      (fst (parsePattern (runes ''3-4-aug''))) (snd (parsePattern (runes ''3-4-aug''))) = Inr False"
proof -
  have general: "matchSyllablePatternWithChars w c m =
      Inr (syllable_lengths_fit w c \<and> set m \<subseteq> set w)" for w c m
    by (rule matchSyllablePatternWithChars_eq)
  have aug: "set (runes ''aug'') \<subseteq> set word \<Longrightarrow>
      of_char CHR ''a'' \<in> set word \<and> of_char CHR ''u'' \<in> set word \<and> of_char CHR ''g'' \<in> set word"
    by (simp add: runes_def)
  have "matchSyllablePatternWithChars (runes ''gau xanh'')
          [\<lparr>Length = 3\<rparr>, \<lparr>Length = 4\<rparr>] (runes ''aug'') = Inr True"
    "matchSyllablePatternWithChars (runes ''xau ngoc'')
          [\<lparr>Length = 3\<rparr>, \<lparr>Length = 4\<rparr>] (runes ''aug'') = Inr True"
    "matchSyllablePatternWithChars (runes ''cau xanh'')
          [\<lparr>Length = 3\<rparr>, \<lparr>Length = 4\<rparr>] (runes ''aug'') = Inr False"
    by (simp_all add: general syllable_lengths_fit_def string_defs)
  then show ?thesis
    unfolding parsePattern_3_4_aug fst_conv snd_conv using aug by (simp add: general)
qed

theorem mustChars_whole_word_witness:
  "syllable_lengths_fit (runes ''xau ngoc'') [\<lparr>Length = 3\<rparr>, \<lparr>Length = 4\<rparr>] \<and>
   set (runes ''aug'') \<subseteq> set (runes ''xau ngoc'') \<and>
   matchSyllablePatternWithChars (runes ''xau ngoc'') [\<lparr>Length = 3\<rparr>, \<lparr>Length = 4\<rparr>] (runes ''aug'') = Inr True \<and>
   of_char CHR ''g'' \<in> set (runes ''xau ngoc'')"
proof -
  let ?w = "runes ''xau ngoc''" and ?c = "[\<lparr>Length = 3\<rparr>, \<lparr>Length = 4\<rparr>]"
  note inst = mustChars_whole_word[of ?w ?c "runes ''aug''"]
  have fit: "syllable_lengths_fit ?w ?c"
    by (simp add: syllable_lengths_fit_def string_defs)
  have sub: "set (runes ''aug'') \<subseteq> set ?w"
    by (simp add: runes_def)
  have m: "matchSyllablePatternWithChars ?w ?c (runes ''aug'') = Inr True"
    using inst fit sub by blast
  have "matchSyllablePatternWithChars ?w
      (fst (parsePattern (runes ''3-4-aug''))) (snd (parsePattern (runes ''3-4-aug''))) = Inr True"
    using m by (simp add: parsePattern_3_4_aug)
  then have "of_char CHR ''g'' \<in> set ?w"
    using inst by blast
  with fit sub m show ?thesis by blast
qed

text \<open>
  C10. When no part of a hyphen query is a number, \<^verbatim>\<open>parsePattern\<close> yields no length
  constraint; a word then matches only if it has no syllable at all, so a word with a
  rune that is no white space never matches, whatever runes it contains.
\<close>

theorem query_without_numbers_matches_no_word:
  "\<forall>p\<in>set (strings_Split query hyphen). \<exists>e. strconv_Atoi p = Inl e \<Longrightarrow>
   fst (parsePattern query) = [] \<and>
   (matchSyllablePatternWithChars word (fst (parsePattern query)) (snd (parsePattern query)) = Inr True \<longrightarrow>
      strings_Fields word = []) \<and>
   ((\<exists>c\<in>set word. \<not> unicode_IsSpace c) \<longrightarrow>
      matchSyllablePatternWithChars word (fst (parsePattern query)) (snd (parsePattern query)) = Inr False)"
proof -
  assume none: "\<forall>p\<in>set (strings_Split query hyphen). \<exists>e. strconv_Atoi p = Inl e"
  have "concat (map (\<lambda>p. case strconv_Atoi p of Inr n \<Rightarrow> [\<lparr>Length = n\<rparr>] | Inl e \<Rightarrow> []) ps) = []"
    if "\<forall>p\<in>set ps. \<exists>e. strconv_Atoi p = Inl e" for ps
    using that by (induction ps) auto
  with none have conds: "fst (parsePattern query) = []"
    by (simp add: parsePattern_def parse_loop_eq)
  have fields: "strings_Fields word = []"
    if "matchSyllablePatternWithChars word [] m = Inr True" for m
    using that by (simp add: matchSyllablePatternWithChars_eq syllable_lengths_fit_def)
  have no: "matchSyllablePatternWithChars word [] m = Inr False"
    if "\<exists>c\<in>set word. \<not> unicode_IsSpace c" for m
    using that strings_Fields_empty_iff[of word]
    by (auto simp: matchSyllablePatternWithChars_eq syllable_lengths_fit_def)
  show ?thesis
    unfolding conds using fields no by blast
qed

theorem query_without_numbers_matches_no_word_witness:
  "parsePattern (runes ''abc-def'') = ([], runes ''abcdef'') \<and>
   set (runes ''abcdef'') \<subseteq> set (runes ''fed cab'') \<and>
   matchSyllablePatternWithChars (runes ''fed cab'') [] (runes ''abcdef'') = Inr False"
proof -
  have split: "strings_Split (runes ''abc-def'') hyphen = [runes ''abc'', runes ''def'']"
    by (simp add: string_defs)
  have "strconv_Atoi (runes ''abc'') = Inl ErrSyntax" "strconv_Atoi (runes ''def'') = Inl ErrSyntax"
    by (simp_all add: atoi_defs string_defs)
  then have none: "\<forall>p\<in>set (strings_Split (runes ''abc-def'') hyphen). \<exists>e. strconv_Atoi p = Inl e"
    unfolding split by simp
  have p: "parsePattern (runes ''abc-def'') = ([], runes ''abcdef'')"
    by (simp add: atoi_defs string_defs)
  have sub: "set (runes ''abcdef'') \<subseteq> set (runes ''fed cab'')"
    by (simp add: runes_def)
  have "\<exists>c\<in>set (runes ''fed cab''). \<not> unicode_IsSpace c"
    by (simp add: string_defs)
  with query_without_numbers_matches_no_word[OF none, of "runes ''fed cab''"]
  have "matchSyllablePatternWithChars (runes ''fed cab'')
          (fst (parsePattern (runes ''abc-def''))) (snd (parsePattern (runes ''abc-def''))) = Inr False"
    by blast
  with p sub show ?thesis by simp
qed

section \<open>The normalizer and the Unicode excerpt\<close>

lemma decomposition_excerpt:
  "decomposition ucd_excerpt r =
        (if r < 0xC0 then [r]
         else if r < 0x100 then lookup_decomposition decomposition_00C0 r
         else if r < 0x1EA0 then lookup_decomposition decomposition_0100 r
         else if r < 0x1EB8 then lookup_decomposition decomposition_1EA0 r
         else if r < 0x1EC8 then lookup_decomposition decomposition_1EB8 r
         else if r < 0x1EE4 then lookup_decomposition decomposition_1EC8 r
         else if r < 0x1EFA then lookup_decomposition decomposition_1EE4 r
         else [r])"
  by (simp add: ucd_excerpt_def)

lemma combining_class_excerpt:
  "combining_class ucd_excerpt r =
     (if r = 0x300 \<or> r = 0x301 \<or> r = 0x302 \<or> r = 0x303 \<or> r = 0x306 \<or> r = 0x309 then 230
      else if r = 0x31B then 216
      else if r = 0x323 then 220
      else if r = 0x1D165 then 216
      else if r = 0x1D16D then 226
      else 0)"
  by (simp add: ucd_excerpt_def)

lemma is_Mn_excerpt:
  "is_Mn ucd_excerpt r =
     (r = 0x300 \<or> r = 0x301 \<or> r = 0x302 \<or> r = 0x303 \<or> r = 0x306 \<or> r = 0x309 \<or>
      r = 0x31B \<or> r = 0x323 \<or> r = 0x34F)"
  by (simp add: ucd_excerpt_def)

lemma to_lower_excerpt:
  "to_lower ucd_excerpt r =
     (if r < 0x80 then (if 0x41 \<le> r \<and> r \<le> 0x5A then r + 0x20 else r)
      else (case map_of lower_table r of Some l \<Rightarrow> l | None \<Rightarrow> r))"
  by (simp add: ucd_excerpt_def)

lemmas unicode_defs =
  removeDiacritics_def norm_NFD_def canonical_order_def strings_ToLower_def
  decomposition_excerpt combining_class_excerpt is_Mn_excerpt to_lower_excerpt
  lookup_decomposition_def decomposition_00C0_def decomposition_0100_def decomposition_1EA0_def
  decomposition_1EB8_def decomposition_1EC8_def decomposition_1EE4_def
  lower_table_def d_stroke_def D_stroke_def map_of_Cons_code


lemma write_loop_eq:
  "write_loop ud rs b =
     b @ map (\<lambda>r. if r = d_stroke then 0x64 else if r = D_stroke then 0x44 else r)
           (filter (\<lambda>r. \<not> is_Mn ud r) rs)"
  by (induction rs arbitrary: b) simp_all

lemma removeDiacritics_eq:
  "removeDiacritics ud str =
     map (\<lambda>r. if r = d_stroke then 0x64 else if r = D_stroke then 0x44 else r)
       (filter (\<lambda>r. \<not> is_Mn ud r) (norm_NFD ud str))"
  by (simp add: removeDiacritics_def write_loop_eq)

lemma set_insert_mark: "set (insert_mark ccc c buf) = insert c (set buf)"
  by (induction buf) auto

lemma set_foldl_insert_mark:
  "set (foldl (\<lambda>buf c. insert_mark ccc c buf) acc s) = set s \<union> set acc"
  by (induction s arbitrary: acc) (auto simp: set_insert_mark)

lemma set_canonical_order: "set (canonical_order ccc s) = set s"
  by (simp add: canonical_order_def set_foldl_insert_mark)

lemma insert_mark_starter: "ccc c = 0 \<Longrightarrow> insert_mark ccc c buf = c # buf"
  by (cases buf) simp_all

lemma foldl_insert_mark_starters:
  "\<forall>c\<in>set s. ccc c = 0 \<Longrightarrow> foldl (\<lambda>buf c. insert_mark ccc c buf) acc s = rev s @ acc"
  by (induction s arbitrary: acc) (simp_all add: insert_mark_starter)

lemma canonical_order_starters: "\<forall>c\<in>set s. ccc c = 0 \<Longrightarrow> canonical_order ccc s = s"
  by (simp add: canonical_order_def foldl_insert_mark_starters)

lemma norm_NFD_stable:
  assumes "\<forall>c\<in>set s. decomposition ud c = [c]" and "\<forall>c\<in>set s. combining_class ud c = 0"
  shows "norm_NFD ud s = s"
proof -
  have "concat (map (decomposition ud) s) = s"
    using assms(1) by (induction s) simp_all
  then show ?thesis
    using assms(2) by (simp add: norm_NFD_def canonical_order_starters)
qed

lemma norm_NFD_runes:
  assumes "decomposition_closed ud" and "c \<in> set (norm_NFD ud s)"
  shows "decomposition ud c = [c]"
proof -
  from assms(2) obtain r where "c \<in> set (decomposition ud r)"
    by (auto simp: norm_NFD_def set_canonical_order)
  with assms(1) show ?thesis
    unfolding decomposition_closed_def by blast
qed

lemma removeDiacritics_runes:
  assumes "decomposition_closed ud" and "c \<in> set (removeDiacritics ud s)"
  shows "decomposition ud c = [c] \<and> \<not> is_Mn ud c \<and> c \<noteq> d_stroke \<and> c \<noteq> D_stroke"
proof -
  from assms(2) obtain r where r: "r \<in> set (norm_NFD ud s)" "\<not> is_Mn ud r"
    and c: "c = (if r = d_stroke then 0x64 else if r = D_stroke then 0x44 else r)"
    by (auto simp: removeDiacritics_eq)
  have "decomposition ud r = [r]"
    using assms(1) r(1) by (rule norm_NFD_runes)
  with assms(1) r(2) c show ?thesis
    by (auto simp: decomposition_closed_def d_stroke_def D_stroke_def)
qed

lemma removeDiacritics_stable:
  assumes "\<forall>c\<in>set s. decomposition ud c = [c] \<and> \<not> is_Mn ud c \<and> c \<noteq> d_stroke \<and> c \<noteq> D_stroke"
    and "\<forall>c\<in>set s. combining_class ud c = 0"
  shows "removeDiacritics ud s = s"
proof -
  have nfd: "norm_NFD ud s = s"
    using assms by (intro norm_NFD_stable) simp_all
  have "filter (\<lambda>r. \<not> is_Mn ud r) s = s"
    using assms(1) by (simp add: filter_id_conv)
  moreover have "map (\<lambda>r. if r = d_stroke then 0x64 else if r = D_stroke then 0x44 else r) s = s"
    using assms(1) by (simp add: map_idI)
  ultimately show ?thesis
    by (simp add: removeDiacritics_eq nfd)
qed

lemma decomposition_table_bounds:
  "list_all (\<lambda>(k, d). list_all (\<lambda>c. c < 0xC0 \<or> (0x300 \<le> c \<and> c \<le> 0x36F)) d) decomposition_00C0"
  "list_all (\<lambda>(k, d). list_all (\<lambda>c. c < 0xC0 \<or> (0x300 \<le> c \<and> c \<le> 0x36F)) d) decomposition_0100"
  "list_all (\<lambda>(k, d). list_all (\<lambda>c. c < 0xC0 \<or> (0x300 \<le> c \<and> c \<le> 0x36F)) d) decomposition_1EA0"
  "list_all (\<lambda>(k, d). list_all (\<lambda>c. c < 0xC0 \<or> (0x300 \<le> c \<and> c \<le> 0x36F)) d) decomposition_1EB8"
  "list_all (\<lambda>(k, d). list_all (\<lambda>c. c < 0xC0 \<or> (0x300 \<le> c \<and> c \<le> 0x36F)) d) decomposition_1EC8"
  "list_all (\<lambda>(k, d). list_all (\<lambda>c. c < 0xC0 \<or> (0x300 \<le> c \<and> c \<le> 0x36F)) d) decomposition_1EE4"
  by (simp_all add: decomposition_00C0_def decomposition_0100_def decomposition_1EA0_def
      decomposition_1EB8_def decomposition_1EC8_def decomposition_1EE4_def)

lemma lookup_decomposition_cases:
  assumes "list_all (\<lambda>(k, d). list_all Q d) table"
    and "c \<in> set (lookup_decomposition table r)"
  shows "lookup_decomposition table r = [r] \<and> c = r \<or> Q c"
proof (cases "map_of table r")
  case None
  with assms(2) show ?thesis by (simp add: lookup_decomposition_def)
next
  case (Some d)
  then have "(r, d) \<in> set table" by (rule map_of_SomeD)
  with assms(1) have "list_all Q d" by (auto simp: list_all_iff)
  with Some assms(2) show ?thesis by (auto simp: lookup_decomposition_def list_all_iff)
qed

lemma decomposition_0100_marks:
  assumes "0x300 \<le> c"
  shows "lookup_decomposition decomposition_0100 c = [c]"
proof -
  have "list_all (\<lambda>(k, d). k < 0x300) decomposition_0100"
    by (simp add: decomposition_0100_def)
  then have "c \<notin> fst ` set decomposition_0100"
    using assms by (auto simp: list_all_iff)
  then have "map_of decomposition_0100 c = None"
    by (simp add: map_of_eq_None_iff)
  then show ?thesis by (simp add: lookup_decomposition_def)
qed

lemma ucd_excerpt_closed: "decomposition_closed ucd_excerpt"
proof -
  let ?Q = "\<lambda>c::rune. c < 0xC0 \<or> (0x300 \<le> c \<and> c \<le> 0x36F)"
  have stable: "decomposition ucd_excerpt c = [c]" if "?Q c" for c
    using that by (auto simp: decomposition_excerpt decomposition_0100_marks)
  have "decomposition ucd_excerpt c = [c]" if c: "c \<in> set (decomposition ucd_excerpt r)" for r c
  proof -
    have table: "decomposition ucd_excerpt c = [c]"
      if "decomposition ucd_excerpt r = lookup_decomposition t r"
        and "list_all (\<lambda>(k, d). list_all ?Q d) t" for t
      using lookup_decomposition_cases[OF that(2), of c r] c stable that(1) by auto
    consider "r < 0xC0" | "0xC0 \<le> r" "r < 0x100" | "0x100 \<le> r" "r < 0x1EA0"
      | "0x1EA0 \<le> r" "r < 0x1EB8" | "0x1EB8 \<le> r" "r < 0x1EC8" | "0x1EC8 \<le> r" "r < 0x1EE4"
      | "0x1EE4 \<le> r" "r < 0x1EFA" | "0x1EFA \<le> r"
      by linarith
    then show ?thesis
    proof cases
      case 1
      with c stable show ?thesis by (simp add: decomposition_excerpt)
    next
      case 2
      then show ?thesis
        by (intro table[OF _ decomposition_table_bounds(1)]) (simp add: decomposition_excerpt)
    next
      case 3
      then show ?thesis
        by (intro table[OF _ decomposition_table_bounds(2)]) (simp add: decomposition_excerpt)
    next
      case 4
      then show ?thesis
        by (intro table[OF _ decomposition_table_bounds(3)]) (simp add: decomposition_excerpt)
    next
      case 5
      then show ?thesis
        by (intro table[OF _ decomposition_table_bounds(4)]) (simp add: decomposition_excerpt)
    next
      case 6
      then show ?thesis
        by (intro table[OF _ decomposition_table_bounds(5)]) (simp add: decomposition_excerpt)
    next
      case 7
      then show ?thesis
        by (intro table[OF _ decomposition_table_bounds(6)]) (simp add: decomposition_excerpt)
    next
      case 8
      with c have "c = r" by (simp add: decomposition_excerpt)
      with 8 show ?thesis by (simp add: decomposition_excerpt)
    qed
  qed
  then show ?thesis
    by (simp add: decomposition_closed_def decomposition_excerpt is_Mn_excerpt)
qed

section \<open>The claims about the normalizer\<close>

text \<open>
  C7. \<^verbatim>\<open>removeDiacritics\<close> on "Da Nang" written with its Vietnamese diacritics
  (U+0110, U+00E0, space, N, U+1EB5, n, g; or the same text with the marks already
  separate) gives \<^verbatim>\<open>"Da Nang"\<close>. On every string the result is the decomposed
  text without its runes of category Mn (the nonspacing combining marks, which is what
  the loop tests), with U+0111 replaced by \<open>d\<close> and U+0110 by
  \<open>D\<close>, every other rune as it is and in the same order; a string of runes that have
  no decomposition, are no marks and are neither U+0110 nor U+0111 comes back unchanged,
  upper case included.
\<close>

theorem removeDiacritics_Da_Nang:
  "removeDiacritics ucd_excerpt [0x110, 0xE0, 0x20, 0x4E, 0x1EB5, 0x6E, 0x67] = runes ''Da Nang'' \<and>
   removeDiacritics ucd_excerpt [0x110, 0x61, 0x300, 0x20, 0x4E, 0x61, 0x306, 0x303, 0x6E, 0x67] =
     runes ''Da Nang'' \<and>
   removeDiacritics ucd_excerpt [0x111, 0x1B0, 0x1EDD, 0x6E, 0x67] = runes ''duong'' \<and>
   removeDiacritics ud str =
     map (\<lambda>r. if r = d_stroke then 0x64 else if r = D_stroke then 0x44 else r)
       (filter (\<lambda>r. \<not> is_Mn ud r) (norm_NFD ud str)) \<and>
   ((\<forall>c\<in>set str. decomposition ud c = [c] \<and> combining_class ud c = 0 \<and> \<not> is_Mn ud c \<and>
                  c \<noteq> d_stroke \<and> c \<noteq> D_stroke) \<longrightarrow>
      removeDiacritics ud str = str)"
proof (intro conjI impI)
  show "removeDiacritics ud str =
     map (\<lambda>r. if r = d_stroke then 0x64 else if r = D_stroke then 0x44 else r)
       (filter (\<lambda>r. \<not> is_Mn ud r) (norm_NFD ud str))"
    by (rule removeDiacritics_eq)
next
  assume "\<forall>c\<in>set str. decomposition ud c = [c] \<and> combining_class ud c = 0 \<and> \<not> is_Mn ud c \<and>
                  c \<noteq> d_stroke \<and> c \<noteq> D_stroke"
  then show "removeDiacritics ud str = str"
    by (intro removeDiacritics_stable) simp_all
qed (simp_all add: unicode_defs runes_def del: map_of.simps)

theorem removeDiacritics_Da_Nang_witness:
  "list_all (\<lambda>c. decomposition ucd_excerpt c = [c] \<and> combining_class ucd_excerpt c = 0 \<and>
                 \<not> is_Mn ucd_excerpt c \<and> c \<noteq> d_stroke \<and> c \<noteq> D_stroke) (runes ''Da Nang'') \<and>
   removeDiacritics ucd_excerpt (runes ''Da Nang'') = runes ''Da Nang''"
proof -
  have h: "list_all (\<lambda>c. decomposition ucd_excerpt c = [c] \<and> combining_class ucd_excerpt c = 0 \<and>
                 \<not> is_Mn ucd_excerpt c \<and> c \<noteq> d_stroke \<and> c \<noteq> D_stroke) (runes ''Da Nang'')"
    by (simp add: unicode_defs runes_def del: map_of.simps)
  then have "\<forall>c\<in>set (runes ''Da Nang''). decomposition ucd_excerpt c = [c] \<and>
      combining_class ucd_excerpt c = 0 \<and> \<not> is_Mn ucd_excerpt c \<and> c \<noteq> d_stroke \<and> c \<noteq> D_stroke"
    by (simp only: list_all_iff)
  with removeDiacritics_Da_Nang[of ucd_excerpt "runes ''Da Nang''"]
  have "removeDiacritics ucd_excerpt (runes ''Da Nang'') = runes ''Da Nang''"
    by blast
  with h show ?thesis by simp
qed

text \<open>
  C2, as the claim states it, fails. U+1D16D and U+1D165 are spacing marks (category Mc,
  classes 226 and 216), which the loop keeps; U+034F is of category Mn and class 0. In the string
  U+1D16D U+034F U+1D165 the middle rune keeps the other two apart, so the string is in
  normalization form D; \<^verbatim>\<open>removeDiacritics\<close> drops U+034F only. In its result the two
  marks stand side by side in the wrong order, and the second call swaps them.
\<close>

theorem removeDiacritics_not_idempotent:
  "removeDiacritics ucd_excerpt [0x1D16D, 0x34F, 0x1D165] = [0x1D16D, 0x1D165] \<and>
   removeDiacritics ucd_excerpt (removeDiacritics ucd_excerpt [0x1D16D, 0x34F, 0x1D165]) =
     [0x1D165, 0x1D16D] \<and>
   removeDiacritics ucd_excerpt (removeDiacritics ucd_excerpt [0x1D16D, 0x34F, 0x1D165]) \<noteq>
     removeDiacritics ucd_excerpt [0x1D16D, 0x34F, 0x1D165]"
proof -
  have one: "removeDiacritics ucd_excerpt [0x1D16D, 0x34F, 0x1D165] = [0x1D16D, 0x1D165]"
    by (simp add: unicode_defs del: map_of.simps)
  have two: "removeDiacritics ucd_excerpt [0x1D16D, 0x1D165] = [0x1D165, 0x1D16D]"
    by (simp add: unicode_defs del: map_of.simps)
  show ?thesis
    unfolding one two by simp
qed

text \<open>
  C2, amended. Over Unicode data whose decompositions are closed, \<^verbatim>\<open>removeDiacritics\<close>
  is idempotent on every string whose result holds only runes of combining class 0.
  That covers every text whose combining marks are all of category Mn, Vietnamese text
  among them.
\<close>

theorem removeDiacritics_idempotent_on_starters:
  assumes "decomposition_closed ud"
    and "\<forall>c\<in>set (removeDiacritics ud x). combining_class ud c = 0"
  shows "removeDiacritics ud (removeDiacritics ud x) = removeDiacritics ud x"
  using assms removeDiacritics_runes[OF assms(1)]
  by (intro removeDiacritics_stable) blast+

theorem removeDiacritics_idempotent_on_starters_witness:
  "decomposition_closed ucd_excerpt \<and>
   removeDiacritics ucd_excerpt [0x110, 0xE0, 0x20, 0x4E, 0x1EB5, 0x6E, 0x67] = runes ''Da Nang'' \<and>
   list_all (\<lambda>c. combining_class ucd_excerpt c = 0)
     (removeDiacritics ucd_excerpt [0x110, 0xE0, 0x20, 0x4E, 0x1EB5, 0x6E, 0x67]) \<and>
   removeDiacritics ucd_excerpt (removeDiacritics ucd_excerpt [0x110, 0xE0, 0x20, 0x4E, 0x1EB5, 0x6E, 0x67]) =
     removeDiacritics ucd_excerpt [0x110, 0xE0, 0x20, 0x4E, 0x1EB5, 0x6E, 0x67]"
proof -
  let ?x = "[0x110, 0xE0, 0x20, 0x4E, 0x1EB5, 0x6E, 0x67] :: rune list"
  have r: "removeDiacritics ucd_excerpt ?x = runes ''Da Nang''"
    by (simp add: unicode_defs runes_def del: map_of.simps)
  have s: "list_all (\<lambda>c. combining_class ucd_excerpt c = 0) (removeDiacritics ucd_excerpt ?x)"
    unfolding r by (simp add: combining_class_excerpt runes_def)
  then have "\<forall>c\<in>set (removeDiacritics ucd_excerpt ?x). combining_class ucd_excerpt c = 0"
    by (simp only: list_all_iff)
  then have "removeDiacritics ucd_excerpt (removeDiacritics ucd_excerpt ?x) =
      removeDiacritics ucd_excerpt ?x"
    by (rule removeDiacritics_idempotent_on_starters[OF ucd_excerpt_closed])
  with ucd_excerpt_closed r s show ?thesis by simp
qed

section \<open>The claim about the lookup drivers\<close>











text \<open>
  A defect of the earlier \<^verbatim>\<open>main\<close>, apart from what C6 is amended to: its hyphen branch
  passes \<^verbatim>\<open>removeDiacritics(word)\<close> to the matcher without the \<^verbatim>\<open>strings.ToLower\<close> that
  the other branch of the same \<^verbatim>\<open>switch\<close> applies, so that the must-contain letters are
  compared with their case: \<^verbatim>\<open>"Ba Lan"\<close> is printed for \<^verbatim>\<open>"2-3-B"\<close> and not for
  \<^verbatim>\<open>"2-3-b"\<close>.
\<close>

lemma main_v1_hyphen_branch_compares_case:
  "main_v1 ucd_excerpt [runes ''Ba Lan''] (runes ''2-3-b'') = Inr (Matches []) \<and>
   main_v1 ucd_excerpt [runes ''Ba Lan''] (runes ''2-3-B'') = Inr (Matches [runes ''Ba Lan''])"
proof -
  have p1: "parsePattern (runes ''2-3-b'') = ([\<lparr>Length = 2\<rparr>, \<lparr>Length = 3\<rparr>], runes ''b'')"
    and p2: "parsePattern (runes ''2-3-B'') = ([\<lparr>Length = 2\<rparr>, \<lparr>Length = 3\<rparr>], runes ''B'')"
    by (simp_all add: atoi_defs string_defs)
  have w: "removeDiacritics ucd_excerpt (runes ''Ba Lan'') = runes ''Ba Lan''"
    by (simp add: unicode_defs string_defs del: map_of.simps)
  have n: "matchSyllablePatternWithChars (runes ''Ba Lan'')
     [\<lparr>Length = 2\<rparr>, \<lparr>Length = 3\<rparr>] (runes ''b'') = Inr False"
    "matchSyllablePatternWithChars (runes ''Ba Lan'')
     [\<lparr>Length = 2\<rparr>, \<lparr>Length = 3\<rparr>] (runes ''B'') = Inr True"
    by (simp_all add: matchSyllablePatternWithChars_eq syllable_lengths_fit_def string_defs)
  have d1: "main_v1 ucd_excerpt [runes ''Ba Lan''] (runes ''2-3-b'') = Inr (Matches [])"
    unfolding main_v1_def p1 by (simp add: w n) (simp add: string_defs)
  have d2: "main_v1 ucd_excerpt [runes ''Ba Lan''] (runes ''2-3-B'') = Inr (Matches [runes ''Ba Lan''])"
    unfolding main_v1_def p2 by (simp add: w n) (simp add: string_defs)
  from d1 d2 show ?thesis by simp
qed

end
